theory Spec2Isabelle
  imports Complex_Main
begin

section \<open>Guild permissions: data model\<close>

text \<open>
  A shallow embedding of \<^verbatim>\<open>src/utils/permissions.py\<close> (class \<^verbatim>\<open>PermissionsManager\<close>).
  Python dictionaries are maps, exceptions are values of a sum type, the mutable
  attributes of the manager and the contents of the database collection are threaded
  through every method as an explicit state, and every reading of the wall clock
  (\<^verbatim>\<open>time.time()\<close>) is an explicit argument, a real number of seconds. Levels and
  identifiers are integers. Coroutines are modelled as run to completion: interleavings
  at \<^verbatim>\<open>await\<close> are not part of the model, and neither are the log messages.
\<close>

datatype error = AttributeError | TypeError

text \<open>The two literals \<^verbatim>\<open>"roles"\<close> and \<^verbatim>\<open>"members"\<close> that the class passes as \<^verbatim>\<open>field\<close>.\<close>

datatype field = Roles | Members

text \<open>
  The \<^verbatim>\<open>permissions\<close> payload of a guild document:
  \<^verbatim>\<open>{"roles": {id: level}, "members": {id: level}}\<close>, every key optional. The cache
  adds the key \<^verbatim>\<open>"last_refreshed"\<close> to the very same dictionary, so the key is a
  third optional component of the payload.
\<close>

record perms =
  perm_roles :: "(string \<rightharpoonup> int) option"
  perm_members :: "(string \<rightharpoonup> int) option"
  last_refreshed :: "int option"

text \<open>A document of the collection \<^verbatim>\<open>guild_config\<close>, stored under its \<^verbatim>\<open>_id\<close>.\<close>

record doc =
  doc_permissions :: "perms option"

text \<open>The objects of the chat library that the class reads: \<^verbatim>\<open>role.id\<close>,
  \<^verbatim>\<open>role.guild.id\<close>, \<^verbatim>\<open>member.id\<close>, \<^verbatim>\<open>member.guild.id\<close>,
  \<^verbatim>\<open>member.guild.owner.id\<close>, \<^verbatim>\<open>member.roles\<close>.\<close>

record role =
  role_id :: int
  role_guild_id :: int

record member =
  member_id :: int
  member_guild_id :: int
  member_guild_owner_id :: int
  member_roles :: "role list"

datatype principal = Member member | Role role

record guild =
  get_role :: "int \<Rightarrow> role option"
  get_member :: "int \<Rightarrow> member option"

text \<open>The calls the class makes on \<^verbatim>\<open>self.db.guild_config\<close>. The update path
  \<^verbatim>\<open>permissions.<field>.<id>\<close> is kept as its two varying parts.\<close>

datatype db_call =
  FindOne string
| FindOneAndUpdate string field string int

text \<open>
  The database driver \<^verbatim>\<open>self.db\<close>: what \<^verbatim>\<open>find_one\<close> answers on the current
  collection, and what \<^verbatim>\<open>find_one_and_update\<close> answers and leaves behind.
\<close>

record database =
  find_one :: "(string \<rightharpoonup> doc) \<Rightarrow> string \<Rightarrow> doc option"
  find_one_and_update ::
    "(string \<rightharpoonup> doc) \<Rightarrow> string \<Rightarrow> field \<Rightarrow> string \<Rightarrow> int \<Rightarrow> doc option \<times> (string \<rightharpoonup> doc)"

text \<open>
  The state: the attribute \<^verbatim>\<open>self.guild_cache\<close> (\<open>None\<close> while the attribute has
  never been assigned), the documents of the collection, and the trace of the calls
  made on the collection so far.
\<close>

record pm_state =
  guild_cache :: "(int \<rightharpoonup> perms) option"
  documents :: "string \<rightharpoonup> doc"
  db_calls :: "db_call list"

text \<open>
  The outcome of a method: the value it returns, or the exception it raises, in both
  cases with the state as the method leaves it.
\<close>

type_synonym 'a result = "error \<times> pm_state + 'a \<times> pm_state"

section \<open>Python primitives\<close>

text \<open>\<^verbatim>\<open>str(n)\<close> of an integer: its decimal digits, with a minus sign when negative.\<close>

definition digit_char :: "nat \<Rightarrow> char" where
  "digit_char d = ''0123456789'' ! d"

fun nat_str :: "nat \<Rightarrow> string" where
  "nat_str n = (if n < 10 then [digit_char n] else nat_str (n div 10) @ [digit_char (n mod 10)])"

declare nat_str.simps [simp del]

definition py_str :: "int \<Rightarrow> string" where
  "py_str i = (if i < 0 then CHR ''-'' # nat_str (nat (- i)) else nat_str (nat i))"

text \<open>\<^verbatim>\<open>round(x)\<close> of a float: the nearest integer, a tie going to the even one.\<close>

definition py_round :: "real \<Rightarrow> int" where
  "py_round x =
     (let f = \<lfloor>x\<rfloor>; d = x - of_int f
      in if d < 1 / 2 then f else if 1 / 2 < d then f + 1 else if even f then f else f + 1)"

text \<open>Truth value of a payload dictionary: it has at least one key.\<close>

definition dict_truthy :: "perms \<Rightarrow> bool" where
  "dict_truthy p \<longleftrightarrow> perm_roles p \<noteq> None \<or> perm_members p \<noteq> None \<or> last_refreshed p \<noteq> None"

text \<open>Truth value of what \<^verbatim>\<open>dict.get\<close> or a look-up answers: \<^verbatim>\<open>None\<close> is false.\<close>

fun truthy :: "perms option \<Rightarrow> bool" where
  "truthy None = False"
| "truthy (Some p) = dict_truthy p"

text \<open>\<^verbatim>\<open>permissions.get(field)\<close>.\<close>

fun get_field :: "field \<Rightarrow> perms \<Rightarrow> (string \<rightharpoonup> int) option" where
  "get_field Roles p = perm_roles p"
| "get_field Members p = perm_members p"

section \<open>The cache\<close>

text \<open>
  \<^verbatim>\<open>cache_guild\<close> stores \<^verbatim>\<open>data\<close> itself and then writes the rounded clock into it,
  so the caller's \<^verbatim>\<open>data\<close> is the stamped dictionary from then on.
\<close>

definition stamp :: "real \<Rightarrow> perms \<Rightarrow> perms" where
  "stamp now data = data\<lparr>last_refreshed := Some (py_round now)\<rparr>"

definition cache_guild :: "real \<Rightarrow> int \<Rightarrow> perms \<Rightarrow> pm_state \<Rightarrow> error + pm_state" where
  "cache_guild now guildID data s =
     (case guild_cache s of
        None \<Rightarrow> Inl AttributeError
      | Some c \<Rightarrow> Inr (s\<lparr>guild_cache := Some (c(guildID \<mapsto> stamp now data))\<rparr>))"

definition get_cached_guild :: "real \<Rightarrow> int \<Rightarrow> pm_state \<Rightarrow> error + perms option" where
  "get_cached_guild now guildID s =
     (case guild_cache s of
        None \<Rightarrow> Inl AttributeError
      | Some c \<Rightarrow>
          (case c guildID of
             None \<Rightarrow> Inr None
           | Some e \<Rightarrow>
               if \<not> dict_truthy e then Inr None
               else (case last_refreshed e of
                       None \<Rightarrow> Inl TypeError
                     | Some lr \<Rightarrow> if now - of_int lr < 600 then Inr (Some e) else Inr None)))"

definition delete_cached_guild :: "int \<Rightarrow> pm_state \<Rightarrow> error + bool \<times> pm_state" where
  "delete_cached_guild guildID s =
     (case guild_cache s of
        None \<Rightarrow> Inl AttributeError
      | Some c \<Rightarrow> Inr (c guildID \<noteq> None, s\<lparr>guild_cache := Some (c(guildID := None))\<rparr>))"

section \<open>Reading\<close>

text \<open>
  \<^verbatim>\<open>get_guild_config\<close>; \<open>t_get\<close> is the clock read by \<^verbatim>\<open>get_cached_guild\<close>,
  \<open>t_put\<close> the clock read by \<^verbatim>\<open>cache_guild\<close> after the document has arrived. The
  payload returned after a miss is the dictionary that was just cached, stamp included.
\<close>

definition get_guild_config ::
  "database \<Rightarrow> real \<Rightarrow> real \<Rightarrow> int \<Rightarrow> pm_state \<Rightarrow> perms option result" where
  "get_guild_config db t_get t_put guildID s =
     (case get_cached_guild t_get guildID s of
        Inl e \<Rightarrow> Inl (e, s)
      | Inr cached_guild \<Rightarrow>
          if truthy cached_guild then Inr (cached_guild, s)
          else
            (let conf = find_one db (documents s) (py_str guildID);
                 s1 = s\<lparr>db_calls := db_calls s @ [FindOne (py_str guildID)]\<rparr>;
                 permissions = (case conf of None \<Rightarrow> None | Some d \<Rightarrow> doc_permissions d)
             in case permissions of
                  None \<Rightarrow> Inr (None, s1)
                | Some p \<Rightarrow>
                    if dict_truthy p
                    then (case cache_guild t_put guildID p s1 of
                            Inl e \<Rightarrow> Inl (e, s1)
                          | Inr s2 \<Rightarrow> Inr (Some (stamp t_put p), s2))
                    else Inr (None, s1)))"

definition extract_permission :: "int \<Rightarrow> field \<Rightarrow> perms \<Rightarrow> int" where
  "extract_permission id_resolvable fld permissions =
     (case get_field fld permissions of
        None \<Rightarrow> 0
      | Some m \<Rightarrow>
          if m = Map.empty then 0
          else (case m (py_str id_resolvable) of
                  None \<Rightarrow> 0
                | Some v \<Rightarrow> if v = 0 then 0 else v))"

text \<open>The loop of \<^verbatim>\<open>get_member_permission\<close> over \<^verbatim>\<open>member.roles\<close>.\<close>

fun raise_by_roles :: "perms \<Rightarrow> role list \<Rightarrow> int \<Rightarrow> int" where
  "raise_by_roles permissions [] perm_level = perm_level"
| "raise_by_roles permissions (r # rs) perm_level =
     (let curr_role_perm = extract_permission (role_id r) Roles permissions
      in raise_by_roles permissions rs
           (if curr_role_perm > perm_level then curr_role_perm else perm_level))"

definition owner_level :: "member \<Rightarrow> int" where
  "owner_level m = (if member_guild_owner_id m = member_id m then 4 else 0)"

definition get_member_permission ::
  "database \<Rightarrow> real \<Rightarrow> real \<Rightarrow> member \<Rightarrow> pm_state \<Rightarrow> int result" where
  "get_member_permission db t_get t_put m s =
     (case get_guild_config db t_get t_put (member_guild_id m) s of
        Inl e \<Rightarrow> Inl e
      | Inr (permissions, s1) \<Rightarrow>
          (let perm_level = owner_level m
           in if truthy permissions
              then (case permissions of
                      None \<Rightarrow> Inr (perm_level, s1)
                    | Some p \<Rightarrow>
                        (let perm_level = raise_by_roles p (member_roles m) perm_level;
                             pure = extract_permission (member_id m) Members p
                         in Inr (if perm_level > pure then perm_level else pure, s1)))
              else Inr (perm_level, s1)))"

definition get_role_permission ::
  "database \<Rightarrow> real \<Rightarrow> real \<Rightarrow> role \<Rightarrow> pm_state \<Rightarrow> int result" where
  "get_role_permission db t_get t_put r s =
     (case get_guild_config db t_get t_put (role_guild_id r) s of
        Inl e \<Rightarrow> Inl e
      | Inr (permissions, s1) \<Rightarrow>
          if truthy permissions
          then (case permissions of
                  None \<Rightarrow> Inr (0, s1)
                | Some p \<Rightarrow> Inr (extract_permission (role_id r) Roles p, s1))
          else Inr (0, s1))"

fun get_permission ::
  "database \<Rightarrow> real \<Rightarrow> real \<Rightarrow> principal \<Rightarrow> pm_state \<Rightarrow> int result" where
  "get_permission db t_get t_put (Member m) s = get_member_permission db t_get t_put m s"
| "get_permission db t_get t_put (Role r) s = get_role_permission db t_get t_put r s"

text \<open>The loop of \<^verbatim>\<open>has_permission\<close>: it returns at the first role that suffices.\<close>

fun some_role_suffices :: "perms \<Rightarrow> role list \<Rightarrow> int \<Rightarrow> bool" where
  "some_role_suffices permissions [] req = False"
| "some_role_suffices permissions (r # rs) req =
     (if extract_permission (role_id r) Roles permissions \<ge> req then True
      else some_role_suffices permissions rs req)"

definition has_permission ::
  "database \<Rightarrow> real \<Rightarrow> real \<Rightarrow> member \<Rightarrow> int \<Rightarrow> pm_state \<Rightarrow> bool result" where
  "has_permission db t_get t_put m req s =
     (let perm_level = owner_level m
      in if req = 0 \<or> perm_level \<ge> req then Inr (True, s)
         else (case get_guild_config db t_get t_put (member_guild_id m) s of
                 Inl e \<Rightarrow> Inl e
               | Inr (permissions, s1) \<Rightarrow>
                   if truthy permissions
                   then (case permissions of
                           None \<Rightarrow> Inr (perm_level \<ge> req, s1)
                         | Some p \<Rightarrow>
                             if some_role_suffices p (member_roles m) req then Inr (True, s1)
                             else (let pure = extract_permission (member_id m) Members p;
                                       pure = (if perm_level > pure then perm_level else pure)
                                   in Inr (pure \<ge> req, s1)))
                   else Inr (perm_level \<ge> req, s1)))"

section \<open>Writing\<close>

text \<open>
  \<^verbatim>\<open>set_db_perm_level\<close>: one \<^verbatim>\<open>find_one_and_update\<close>, then the check of the document
  that came back. \<open>failed\<close> is the tail of the method after the two \<^verbatim>\<open>if\<close>s.
\<close>

definition set_db_perm_level ::
  "database \<Rightarrow> real \<Rightarrow> int \<Rightarrow> field \<Rightarrow> int \<Rightarrow> int \<Rightarrow> pm_state \<Rightarrow> bool result" where
  "set_db_perm_level db now guildID fld id_resolvable perm_level s =
     (let (conf, docs') =
            find_one_and_update db (documents s) (py_str guildID) fld (py_str id_resolvable) perm_level;
          s1 = s\<lparr>documents := docs',
                 db_calls := db_calls s @
                   [FindOneAndUpdate (py_str guildID) fld (py_str id_resolvable) perm_level]\<rparr>;
          failed = (case delete_cached_guild guildID s1 of
                      Inl e \<Rightarrow> Inl (e, s1)
                    | Inr (did_delete, s2) \<Rightarrow> Inr (False, s2))
      in case conf of
           None \<Rightarrow> failed
         | Some d \<Rightarrow>
             (case doc_permissions d of
                None \<Rightarrow> failed
              | Some p \<Rightarrow>
                  if \<not> dict_truthy p then failed
                  else (case get_field fld p of
                          None \<Rightarrow> failed
                        | Some m \<Rightarrow>
                            if m = Map.empty then failed
                            else (case m (py_str id_resolvable) of
                                    None \<Rightarrow> failed
                                  | Some v \<Rightarrow>
                                      if v = perm_level
                                      then (case cache_guild now guildID p s1 of
                                              Inl e \<Rightarrow> Inl (e, s1)
                                            | Inr s2 \<Rightarrow> Inr (True, s2))
                                      else failed))))"

definition set_member_permission ::
  "database \<Rightarrow> real \<Rightarrow> member \<Rightarrow> int \<Rightarrow> pm_state \<Rightarrow> bool result" where
  "set_member_permission db now m perm_level s =
     (let perm_level = max 0 (min 4 perm_level)
      in set_db_perm_level db now (member_guild_id m) Members (member_id m) perm_level s)"

definition set_role_permission ::
  "database \<Rightarrow> real \<Rightarrow> role \<Rightarrow> int \<Rightarrow> pm_state \<Rightarrow> bool result" where
  "set_role_permission db now r perm_level s =
     (let perm_level = max 0 (min 4 perm_level)
      in set_db_perm_level db now (role_guild_id r) Roles (role_id r) perm_level s)"

fun set_permission ::
  "database \<Rightarrow> real \<Rightarrow> principal \<Rightarrow> int \<Rightarrow> pm_state \<Rightarrow> bool result" where
  "set_permission db now (Member m) perm_level s = set_member_permission db now m perm_level s"
| "set_permission db now (Role r) perm_level s = set_role_permission db now r perm_level s"

text \<open>
  \<^verbatim>\<open>handle_permission_update_request\<close>; \<open>bot_get_guild\<close> is \<^verbatim>\<open>self.bot.get_guild\<close>.
  The identifiers are integers already, on which \<^verbatim>\<open>int(...)\<close> is the identity. The
  result \<open>None\<close> is Python's \<^verbatim>\<open>None\<close>, which is what \<^verbatim>\<open>logger.debug\<close> returns.
\<close>

definition handle_permission_update_request ::
  "database \<Rightarrow> real \<Rightarrow> (int \<Rightarrow> guild option) \<Rightarrow> int \<Rightarrow> int \<Rightarrow> int \<Rightarrow> bool \<Rightarrow> pm_state
     \<Rightarrow> bool option result" where
  "handle_permission_update_request db now bot_get_guild guild_id obj_id level is_role s =
     (case bot_get_guild guild_id of
        None \<Rightarrow> Inr (None, s)
      | Some g \<Rightarrow>
          (let target = (if is_role then map_option Role (get_role g obj_id)
                         else map_option Member (get_member g obj_id))
           in case target of
                None \<Rightarrow> Inr (None, s)
              | Some t \<Rightarrow>
                  (case set_permission db now t level s of
                     Inl e \<Rightarrow> Inl e
                   | Inr (ok, s1) \<Rightarrow> Inr (Some ok, s1))))"

section \<open>The document store\<close>

text \<open>
  The behaviour of the store that the class relies on, for documents of the shape above:
  \<^verbatim>\<open>find_one({"_id": key})\<close> answers the document stored under the key, and
  \<^verbatim>\<open>find_one_and_update\<close> with \<^verbatim>\<open>$set\<close> on \<^verbatim>\<open>permissions.<field>.<id>\<close>,
  \<^verbatim>\<open>upsert=True\<close> and \<^verbatim>\<open>ReturnDocument.AFTER\<close> creates whatever is missing on the
  path, sets the one entry and answers the document as it is afterwards.
\<close>

definition no_perms :: perms where
  "no_perms = \<lparr>perm_roles = None, perm_members = None, last_refreshed = None\<rparr>"

fun set_entry :: "field \<Rightarrow> string \<Rightarrow> int \<Rightarrow> perms \<Rightarrow> perms" where
  "set_entry Roles k v p =
     p\<lparr>perm_roles := Some ((case perm_roles p of None \<Rightarrow> Map.empty | Some m \<Rightarrow> m)(k \<mapsto> v))\<rparr>"
| "set_entry Members k v p =
     p\<lparr>perm_members := Some ((case perm_members p of None \<Rightarrow> Map.empty | Some m \<Rightarrow> m)(k \<mapsto> v))\<rparr>"

definition store_find_one :: "(string \<rightharpoonup> doc) \<Rightarrow> string \<Rightarrow> doc option" where
  "store_find_one docs key = docs key"

definition stored_perms :: "(string \<rightharpoonup> doc) \<Rightarrow> string \<Rightarrow> perms" where
  "stored_perms docs key =
     (case docs key of
        None \<Rightarrow> no_perms
      | Some d \<Rightarrow> (case doc_permissions d of None \<Rightarrow> no_perms | Some p \<Rightarrow> p))"

definition store_find_one_and_update ::
  "(string \<rightharpoonup> doc) \<Rightarrow> string \<Rightarrow> field \<Rightarrow> string \<Rightarrow> int \<Rightarrow> doc option \<times> (string \<rightharpoonup> doc)" where
  "store_find_one_and_update docs key fld k v =
     (let d' = \<lparr>doc_permissions = Some (set_entry fld k v (stored_perms docs key))\<rparr>
      in (Some d', docs(key \<mapsto> d')))"

text \<open>The payload of a guild's document after the update of one entry.\<close>

definition written :: "(string \<rightharpoonup> doc) \<Rightarrow> int \<Rightarrow> field \<Rightarrow> int \<Rightarrow> int \<Rightarrow> perms" where
  "written docs g fld sid lvl = set_entry fld (py_str sid) lvl (stored_perms docs (py_str g))"

definition store :: database where
  "store = \<lparr>find_one = store_find_one, find_one_and_update = store_find_one_and_update\<rparr>"

text \<open>A driver whose update answers no document and leaves the collection alone.\<close>

definition silent_store :: database where
  "silent_store =
     \<lparr>find_one = store_find_one, find_one_and_update = (\<lambda>docs key fld k v. (None, docs))\<rparr>"

section \<open>Construction\<close>

text \<open>\<^verbatim>\<open>__init__\<close> assigns \<^verbatim>\<open>logger\<close>, \<^verbatim>\<open>bot\<close> and \<^verbatim>\<open>db\<close>, and nothing else.\<close>

definition init :: "(string \<rightharpoonup> doc) \<Rightarrow> pm_state" where
  "init docs = \<lparr>guild_cache = None, documents = docs, db_calls = []\<rparr>"

section \<open>Specification vocabulary\<close>

text \<open>
  The cache mapping exists and every entry in it carries a stamp. \<^verbatim>\<open>cache_guild\<close> is
  the only writer of entries and stamps each one.
\<close>

definition cache_stamped :: "pm_state \<Rightarrow> bool" where
  "cache_stamped s \<longleftrightarrow>
     (\<exists>c. guild_cache s = Some c \<and> (\<forall>g e. c g = Some e \<longrightarrow> last_refreshed e \<noteq> None))"

text \<open>The override configured for a subject: the level stored under its identifier in
  the field's mapping, and 0 where nothing is stored.\<close>

definition override :: "perms \<Rightarrow> field \<Rightarrow> int \<Rightarrow> int" where
  "override cfg fld subject =
     (case get_field fld cfg of
        None \<Rightarrow> 0
      | Some m \<Rightarrow> (case m (py_str subject) of None \<Rightarrow> 0 | Some v \<Rightarrow> v))"

text \<open>The greatest override among a member's roles, an absent entry counting as 0.\<close>

definition role_max :: "perms \<Rightarrow> role list \<Rightarrow> int" where
  "role_max cfg rs = Max (insert 0 ((\<lambda>r. override cfg Roles (role_id r)) ` set rs))"

text \<open>The level of an individual as the specification words it.\<close>

definition is_tenant_owner :: "member \<Rightarrow> bool" where
  "is_tenant_owner m \<longleftrightarrow> member_guild_owner_id m = member_id m"

definition baseline :: "member \<Rightarrow> int" where
  "baseline m = (if is_tenant_owner m then 4 else 0)"

definition resolve_level :: "perms option \<Rightarrow> member \<Rightarrow> int" where
  "resolve_level cfg m =
     (case cfg of
        None \<Rightarrow> baseline m
      | Some p \<Rightarrow>
          max (max (baseline m) (role_max p (member_roles m))) (override p Members (member_id m)))"

text \<open>The level a payload holds at \<^verbatim>\<open><field>.<id>\<close>, and the level a document holds
  at \<^verbatim>\<open>permissions.<field>.<id>\<close>, if the path exists.\<close>

definition entry_level :: "perms \<Rightarrow> field \<Rightarrow> int \<Rightarrow> int option" where
  "entry_level p fld subject =
     (case get_field fld p of None \<Rightarrow> None | Some m \<Rightarrow> m (py_str subject))"

definition level_at :: "doc option \<Rightarrow> field \<Rightarrow> int \<Rightarrow> int option" where
  "level_at conf fld subject =
     (case conf of
        None \<Rightarrow> None
      | Some d \<Rightarrow>
          (case doc_permissions d of
             None \<Rightarrow> None
           | Some p \<Rightarrow> entry_level p fld subject))"

text \<open>The state a method leaves, whether it returned or raised.\<close>

definition state_of :: "'a result \<Rightarrow> pm_state" where
  "state_of r = (case r of Inl (e, s) \<Rightarrow> s | Inr (v, s) \<Rightarrow> s)"

text \<open>Two calls of \<^verbatim>\<open>set_db_perm_level\<close> in succession with the same arguments, at
  clocks \<open>t1\<close> and \<open>t2\<close>; the value is the pair of their results.\<close>

definition set_twice ::
  "database \<Rightarrow> real \<Rightarrow> real \<Rightarrow> int \<Rightarrow> field \<Rightarrow> int \<Rightarrow> int \<Rightarrow> pm_state \<Rightarrow> (bool \<times> bool) result" where
  "set_twice db t1 t2 guildID fld id_resolvable perm_level s =
     (case set_db_perm_level db t1 guildID fld id_resolvable perm_level s of
        Inl e \<Rightarrow> Inl e
      | Inr (ok1, s1) \<Rightarrow>
          (case set_db_perm_level db t2 guildID fld id_resolvable perm_level s1 of
             Inl e \<Rightarrow> Inl e
           | Inr (ok2, s2) \<Rightarrow> Inr ((ok1, ok2), s2)))"

section \<open>Example inputs\<close>

text \<open>
  Guild 1 is owned by member 9; role 7 is configured at level 3 and member 5 at level 2.
  Member 5 holds role 7. The example state is the manager as constructed over these
  documents, once \<^verbatim>\<open>guild_cache\<close> has been assigned an empty dictionary.
\<close>

definition example_perms :: perms where
  "example_perms =
     \<lparr>perm_roles = Some [''7'' \<mapsto> 3], perm_members = Some [''5'' \<mapsto> 2], last_refreshed = None\<rparr>"

definition example_docs :: "string \<rightharpoonup> doc" where
  "example_docs = [''1'' \<mapsto> \<lparr>doc_permissions = Some example_perms\<rparr>]"

definition example_state :: pm_state where
  "example_state = (init example_docs)\<lparr>guild_cache := Some Map.empty\<rparr>"

text \<open>The same state after the configuration of guild 1 was cached at time 0.\<close>

definition example_cached :: pm_state where
  "example_cached =
     \<lparr>guild_cache = Some [1 \<mapsto> stamp 0 example_perms], documents = example_docs, db_calls = []\<rparr>"

definition example_role :: role where
  "example_role = \<lparr>role_id = 7, role_guild_id = 1\<rparr>"

definition example_member :: member where
  "example_member =
     \<lparr>member_id = 5, member_guild_id = 1, member_guild_owner_id = 9, member_roles = [example_role]\<rparr>"

definition example_owner :: member where
  "example_owner =
     \<lparr>member_id = 9, member_guild_id = 1, member_guild_owner_id = 9, member_roles = []\<rparr>"

text \<open>The chat client knows guild 1 with role 7 and members 5 and 9, and nothing else.\<close>

definition example_guild :: guild where
  "example_guild =
     \<lparr>get_role = (\<lambda>i. if i = 7 then Some example_role else None),
      get_member = (\<lambda>i. if i = 5 then Some example_member
                        else if i = 9 then Some example_owner else None)\<rparr>"

definition example_bot :: "int \<Rightarrow> guild option" where
  "example_bot i = (if i = 1 then Some example_guild else None)"

section \<open>Auxiliary facts\<close>

lemma extract_permission_override: "extract_permission i fld p = override p fld i"
  by (auto simp: extract_permission_def override_def split: option.splits)

lemma Max_insert_step:
  fixes l x :: int
  assumes "finite S"
  shows "Max (insert (if l < x then x else l) S) = Max (insert l (insert x S))"
proof (cases "S = {}")
  case True
  then show ?thesis by (simp add: max_def)
next
  case False
  with assms show ?thesis by (simp add: max_def)
qed

lemma raise_by_roles_Max:
  "raise_by_roles p rs l = Max (insert l ((\<lambda>r. override p Roles (role_id r)) ` set rs))"
proof (induction rs arbitrary: l)
  case Nil
  then show ?case by simp
next
  case (Cons r rs)
  have "raise_by_roles p (r # rs) l =
        Max (insert (if l < override p Roles (role_id r) then override p Roles (role_id r) else l)
               ((\<lambda>r. override p Roles (role_id r)) ` set rs))"
    by (simp add: Cons.IH extract_permission_override)
  also have "\<dots> = Max (insert l (insert (override p Roles (role_id r))
               ((\<lambda>r. override p Roles (role_id r)) ` set rs)))"
    by (rule Max_insert_step) simp
  finally show ?case by (simp add: insert_commute)
qed

lemma some_role_suffices_iff:
  "some_role_suffices p rs req \<longleftrightarrow> (\<exists>r \<in> set rs. req \<le> override p Roles (role_id r))"
  by (induction rs) (auto simp: extract_permission_override)

lemma get_cached_guild_stamped:
  assumes "cache_stamped s"
  shows "\<exists>r. get_cached_guild now g s = Inr r"
  using assms
  by (fastforce simp: cache_stamped_def get_cached_guild_def split: option.splits)

lemma get_cached_guild_truthy:
  assumes "get_cached_guild now g s = Inr r"
  shows "truthy r \<longleftrightarrow> r \<noteq> None"
  using assms
  by (cases r) (auto simp: get_cached_guild_def split: option.splits if_splits)

lemma dict_truthy_stamp: "dict_truthy (stamp t p)"
  by (simp add: dict_truthy_def stamp_def)

lemma get_guild_config_returns:
  assumes "cache_stamped s"
  shows "\<exists>cfg s'. get_guild_config db t_get t_put g s = Inr (cfg, s') \<and> cache_stamped s'"
proof -
  from assms obtain c where c: "guild_cache s = Some c"
    and st: "\<forall>g e. c g = Some e \<longrightarrow> last_refreshed e \<noteq> None"
    by (auto simp: cache_stamped_def)
  from get_cached_guild_stamped [OF assms] obtain r where r: "get_cached_guild t_get g s = Inr r"
    by blast
  note tr = get_cached_guild_truthy [OF r]
  show ?thesis
  proof (cases r)
    case (Some e)
    with r tr assms show ?thesis by (simp add: get_guild_config_def)
  next
    case None
    with r c st show ?thesis
      by (auto simp: get_guild_config_def Let_def cache_guild_def cache_stamped_def stamp_def
               split: option.splits)
  qed
qed

lemma get_guild_config_truthy:
  assumes "get_guild_config db t_get t_put g s = Inr (cfg, s')"
  shows "truthy cfg \<longleftrightarrow> cfg \<noteq> None"
proof (cases "get_cached_guild t_get g s")
  case (Inl e)
  with assms show ?thesis by (simp add: get_guild_config_def)
next
  case (Inr r)
  note tr = get_cached_guild_truthy [OF Inr]
  show ?thesis
  proof (cases "truthy r")
    case True
    with assms Inr tr show ?thesis by (simp add: get_guild_config_def)
  next
    case False
    with assms Inr show ?thesis
      by (auto simp: get_guild_config_def Let_def dict_truthy_stamp
            split: option.splits if_splits sum.splits)
  qed
qed


lemma owner_level_baseline: "owner_level m = baseline m"
  by (simp add: owner_level_def baseline_def is_tenant_owner_def)

lemma baseline_nonneg: "0 \<le> baseline m"
  by (simp add: baseline_def)

lemma raise_by_roles_role_max:
  assumes "0 \<le> l"
  shows "raise_by_roles p rs l = max l (role_max p rs)"
proof -
  let ?S = "(\<lambda>r. override p Roles (role_id r)) ` set rs"
  have "Max (insert l ?S) = max l (Max (insert 0 ?S))"
  proof (cases "?S = {}")
    case True
    with assms show ?thesis by simp
  next
    case False
    with assms show ?thesis by (simp add: max_def)
  qed
  then show ?thesis by (simp add: raise_by_roles_Max role_max_def)
qed

lemma get_member_permission_loaded:
  assumes "get_guild_config db t_get t_put (member_guild_id m) s = Inr (cfg, s')"
  shows "get_member_permission db t_get t_put m s = Inr (resolve_level cfg m, s')"
proof (cases cfg)
  case None
  with assms show ?thesis
    by (simp add: get_member_permission_def resolve_level_def owner_level_baseline)
next
  case (Some p)
  with get_guild_config_truthy [OF assms] have "dict_truthy p" by simp
  with Some assms show ?thesis
    by (simp add: get_member_permission_def resolve_level_def owner_level_baseline
          raise_by_roles_role_max [OF baseline_nonneg] extract_permission_override max_def)
qed

lemma role_max_ge_iff:
  "0 < req \<Longrightarrow> req \<le> role_max p rs \<longleftrightarrow> (\<exists>r \<in> set rs. req \<le> override p Roles (role_id r))"
  by (auto simp: role_max_def Max_ge_iff)

lemma has_permission_loaded:
  assumes "get_guild_config db t_get t_put (member_guild_id m) s = Inr (cfg, s')"
  shows "\<exists>s1. has_permission db t_get t_put m req s = Inr (req \<le> resolve_level cfg m, s1)"
proof (cases "req = 0 \<or> req \<le> baseline m")
  case True
  have "0 \<le> resolve_level cfg m" "baseline m \<le> resolve_level cfg m"
    using baseline_nonneg [of m] by (auto simp: resolve_level_def split: option.splits)
  with True have "req \<le> resolve_level cfg m" by auto
  with True show ?thesis
    by (auto simp: has_permission_def owner_level_baseline)
next
  case False
  then have pos: "0 < req" using baseline_nonneg [of m] by linarith
  show ?thesis
  proof (cases cfg)
    case None
    with assms False show ?thesis
      by (simp add: has_permission_def owner_level_baseline resolve_level_def)
  next
    case (Some p)
    let ?roles = "some_role_suffices p (member_roles m) req"
    let ?pure = "override p Members (member_id m)"
    have rm: "req \<le> role_max p (member_roles m) \<longleftrightarrow> ?roles"
      using pos by (simp add: role_max_ge_iff some_role_suffices_iff)
    have res: "req \<le> resolve_level cfg m \<longleftrightarrow> ?roles \<or> req \<le> ?pure"
      using False rm by (simp add: Some resolve_level_def le_max_iff_disj)
    from Some get_guild_config_truthy [OF assms] have tr: "dict_truthy p" by simp
    have code: "has_permission db t_get t_put m req s =
                Inr (?roles \<or> req \<le> (if ?pure < baseline m then baseline m else ?pure), s')"
      using assms False tr
      by (auto simp: Some has_permission_def owner_level_baseline extract_permission_override
            Let_def)
    have "req \<le> (if ?pure < baseline m then baseline m else ?pure) \<longleftrightarrow> req \<le> ?pure"
      using False by auto
    with code res show ?thesis by simp
  qed
qed

lemmas example_state_eval = example_state_def init_def

lemmas example_defs =
  example_perms_def example_docs_def example_state_eval example_role_def example_member_def
  example_owner_def example_cached_def

lemmas py_str_eval = py_str_def nat_str.simps digit_char_def

lemma cache_stamped_example: "cache_stamped example_state"
  by (simp add: cache_stamped_def example_state_eval)

lemma example_config_loaded:
  "\<exists>s1. get_guild_config store 0 0 1 example_state = Inr (Some (stamp 0 example_perms), s1)"
  by (simp add: get_guild_config_def get_cached_guild_def example_state_eval example_docs_def
        store_def store_find_one_def py_str_eval dict_truthy_def example_perms_def
        cache_guild_def)

lemma example_member_level: "resolve_level (Some (stamp 0 example_perms)) example_member = 3"
  by (simp add: resolve_level_def role_max_def override_def baseline_def is_tenant_owner_def
        stamp_def example_perms_def example_member_def example_role_def py_str_eval)

lemma example_member_resolves:
  "\<exists>s'. get_member_permission store 0 0 example_member example_state = Inr (3, s')"
proof -
  from example_config_loaded obtain s1 where
    "get_guild_config store 0 0 (member_guild_id example_member) example_state =
       Inr (Some (stamp 0 example_perms), s1)"
    by (auto simp: example_member_def)
  from get_member_permission_loaded [OF this] example_member_level show ?thesis by simp
qed

section \<open>Properties\<close>

text \<open>
  C1. When the cache mapping exists and its entries are stamped, \<^verbatim>\<open>get_member_permission\<close>
  returns, and its value is \<open>max (max baseline roleMax) memberOverride\<close> over the
  configuration that \<^verbatim>\<open>get_guild_config\<close> loads: the baseline is 4 for the guild owner
  and 0 otherwise, roleMax is the greatest override among the member's roles (0 for a role
  without an entry), memberOverride is the member's own entry (0 without one). When no
  configuration is loaded the value is the baseline.
\<close>

theorem get_member_permission_is_max:
  assumes "cache_stamped s"
  shows "\<exists>cfg s'. get_guild_config db t_get t_put (member_guild_id m) s = Inr (cfg, s') \<and>
           get_member_permission db t_get t_put m s = Inr (resolve_level cfg m, s') \<and>
           (cfg = None \<longrightarrow> resolve_level cfg m = (if is_tenant_owner m then 4 else 0))"
proof -
  from get_guild_config_returns [OF assms]
  obtain cfg s' where g: "get_guild_config db t_get t_put (member_guild_id m) s = Inr (cfg, s')"
    by blast
  have "cfg = None \<longrightarrow> resolve_level cfg m = (if is_tenant_owner m then 4 else 0)"
    by (simp add: resolve_level_def baseline_def)
  with g get_member_permission_loaded [OF g] show ?thesis by blast
qed

theorem get_member_permission_is_max_witness:
  "cache_stamped example_state \<and>
   (\<exists>s'. get_member_permission store 0 0 example_member example_state = Inr (3, s'))"
proof -
  have h: "cache_stamped example_state" by (rule cache_stamped_example)
  from get_member_permission_is_max [OF h, of store 0 0 example_member]
  obtain cfg s' where
    g: "get_guild_config store 0 0 (member_guild_id example_member) example_state = Inr (cfg, s')"
    and r: "get_member_permission store 0 0 example_member example_state =
            Inr (resolve_level cfg example_member, s')"
    by blast
  from g example_config_loaded have "cfg = Some (stamp 0 example_perms)"
    by (auto simp: example_member_def)
  with r example_member_level h show ?thesis by auto
qed


text \<open>
  C2. When the cache mapping exists and its entries are stamped, \<^verbatim>\<open>has_permission\<close> and
  \<^verbatim>\<open>get_member_permission\<close> both return on the same state, and the former answers
  true exactly when the level the latter computes is at least the required one, for every
  member and every integer requirement.
\<close>

theorem has_permission_consistent:
  assumes "cache_stamped s"
  shows "\<exists>b s1 lvl s2. has_permission db t_get t_put m req s = Inr (b, s1) \<and>
           get_member_permission db t_get t_put m s = Inr (lvl, s2) \<and> (b \<longleftrightarrow> req \<le> lvl)"
proof -
  from get_guild_config_returns [OF assms]
  obtain cfg s' where g: "get_guild_config db t_get t_put (member_guild_id m) s = Inr (cfg, s')"
    by blast
  from has_permission_loaded [OF g] get_member_permission_loaded [OF g]
  show ?thesis by blast
qed


theorem has_permission_consistent_witness:
  "cache_stamped example_state \<and>
   (\<exists>s1. has_permission store 0 0 example_member 3 example_state = Inr (True, s1)) \<and>
   (\<exists>s1. has_permission store 0 0 example_member 4 example_state = Inr (False, s1))"
proof -
  have h: "cache_stamped example_state" by (rule cache_stamped_example)
  from example_member_resolves obtain s' where
    l: "get_member_permission store 0 0 example_member example_state = Inr (3, s')"
    by blast
  from has_permission_consistent [OF h, of store 0 0 example_member 3] l
  have a: "\<exists>s1. has_permission store 0 0 example_member 3 example_state = Inr (True, s1)"
    by auto
  from has_permission_consistent [OF h, of store 0 0 example_member 4] l
  have b: "\<exists>s1. has_permission store 0 0 example_member 4 example_state = Inr (False, s1)"
    by auto
  from h a b show ?thesis by blast
qed

text \<open>
  C9. On a freshly constructed manager the first \<^verbatim>\<open>get_guild_config\<close> does not fall
  through to the store: \<^verbatim>\<open>__init__\<close> never assigns \<^verbatim>\<open>guild_cache\<close>, so the look-up in
  \<^verbatim>\<open>get_cached_guild\<close> raises AttributeError, for every driver, collection, guild and
  clock.
\<close>

theorem fresh_manager_get_guild_config_raises:
  "get_guild_config db t_get t_put guildID (init docs) = Inl (AttributeError, init docs)"
  by (simp add: get_guild_config_def get_cached_guild_def init_def)

text \<open>
  C4. \<^verbatim>\<open>has_permission\<close> answers true at once, leaving the state as it found it (no
  look-up in the cache, which need not even exist, and no call on the collection), when
  the required level is 0, and when the member is the guild owner and the required level
  is at most 4. The guard of the fast path is \<^verbatim>\<open>perm_level >= req\<close> with the owner's
  level 4, so an owner is not served by it for a requirement above 4.
\<close>

theorem has_permission_fast_path:
  assumes "req = 0 \<or> (is_tenant_owner m \<and> req \<le> 4)"
  shows "has_permission db t_get t_put m req s = Inr (True, s)"
  using assms by (auto simp: has_permission_def owner_level_def is_tenant_owner_def)

theorem has_permission_fast_path_witness:
  "((4::int) = 0 \<or> (is_tenant_owner example_owner \<and> (4::int) \<le> 4)) \<and>
   has_permission store 0 0 example_owner 4 (init example_docs) = Inr (True, init example_docs)"
proof -
  have h: "(4::int) = 0 \<or> (is_tenant_owner example_owner \<and> (4::int) \<le> 4)"
    by (simp add: is_tenant_owner_def example_owner_def)
  from has_permission_fast_path [OF h] h show ?thesis by blast
qed

text \<open>
  The owner of guild 1 asks for level 5: the fast path does not apply, the configuration
  is fetched from the collection and cached, and the answer is false.
\<close>

theorem owner_has_permission_counterexample:
  "is_tenant_owner example_owner \<and>
   has_permission store 0 0 example_owner 5 example_state =
     Inr (False, \<lparr>guild_cache = Some [1 \<mapsto> stamp 0 example_perms],
                  documents = example_docs, db_calls = [FindOne ''1'']\<rparr>)"
  by (simp add: has_permission_def owner_level_def is_tenant_owner_def example_owner_def
        get_guild_config_def get_cached_guild_def example_state_eval example_docs_def
        store_def store_find_one_def py_str_eval dict_truthy_def example_perms_def
        cache_guild_def extract_permission_def stamp_def Let_def)

subsection \<open>The cache and the clock\<close>

lemma py_round_near: "x - 1 / 2 \<le> of_int (py_round x) \<and> of_int (py_round x) \<le> x + 1 / 2"
  unfolding py_round_def Let_def by (auto; linarith)

lemma last_refreshed_stamp: "last_refreshed (stamp t p) = Some (py_round t)"
  by (simp add: stamp_def)

lemma get_cached_guild_entry:
  assumes "guild_cache s = Some c" and "c g = Some e" and "last_refreshed e = Some lr"
  shows "get_cached_guild now g s = Inr (if now - of_int lr < 600 then Some e else None)"
  using assms by (simp add: get_cached_guild_def dict_truthy_def)

lemma get_cached_guild_absent:
  assumes "guild_cache s = Some c" and "c g = None"
  shows "get_cached_guild now g s = Inr None"
  using assms by (simp add: get_cached_guild_def)

lemma get_guild_config_hit:
  assumes "get_cached_guild t_get g s = Inr (Some e)"
  shows "get_guild_config db t_get t_put g s = Inr (Some e, s)"
  using assms get_cached_guild_truthy [OF assms] by (simp add: get_guild_config_def)

lemma get_guild_config_miss:
  assumes "get_cached_guild t_get g s = Inr None" and "guild_cache s = Some c"
  shows "\<exists>cfg s2. get_guild_config db t_get t_put g s = Inr (cfg, s2) \<and>
           db_calls s2 = db_calls s @ [FindOne (py_str g)]"
  using assms
  by (auto simp: get_guild_config_def Let_def cache_guild_def split: option.splits)

lemma cache_guild_exists:
  assumes "guild_cache s = Some c"
  shows "cache_guild t0 g data s = Inr (s\<lparr>guild_cache := Some (c(g \<mapsto> stamp t0 data))\<rparr>)"
  using assms by (simp add: cache_guild_def)

lemma extract_permission_stamp:
  "extract_permission subject fld (stamp t p) = extract_permission subject fld p"
  by (cases fld) (simp_all add: extract_permission_def stamp_def)

lemma get_cached_guild_Some:
  assumes "get_cached_guild now g s = Inr (Some e)"
  shows "\<exists>c. guild_cache s = Some c \<and> c g = Some e"
  using assms by (auto simp: get_cached_guild_def split: option.splits if_splits)


text \<open>
  C5. Where the cache mapping exists and its entries are stamped,
  \<^verbatim>\<open>get_cached_guild\<close> serves an entry exactly when it exists and the clock minus its
  stamp is strictly below 600. An entry cached at clock \<open>t0\<close> is therefore served by
  \<^verbatim>\<open>get_guild_config\<close> at \<open>t0\<close> and at \<open>t0 + 599\<close> with the state, and so the trace
  of calls on the collection, unchanged; at \<open>t0 + 601\<close> it is not served and
  \<^verbatim>\<open>get_guild_config\<close> calls \<^verbatim>\<open>find_one\<close>. The rounding of the stamp moves it by at
  most half a second, which both margins absorb.
\<close>

theorem cached_guild_served_iff_fresh:
  assumes "cache_stamped s"
  shows "(\<exists>c r. guild_cache s = Some c \<and> get_cached_guild now g s = Inr r \<and>
            (\<forall>e. r = Some e \<longleftrightarrow>
               c g = Some e \<and> (\<exists>lr. last_refreshed e = Some lr \<and> now - of_int lr < 600))) \<and>
         (\<exists>s1. cache_guild t0 g data s = Inr s1 \<and>
            get_guild_config db t0 t_put g s1 = Inr (Some (stamp t0 data), s1) \<and>
            get_guild_config db (t0 + 599) t_put g s1 = Inr (Some (stamp t0 data), s1) \<and>
            get_cached_guild (t0 + 601) g s1 = Inr None \<and>
            (\<exists>cfg s2. get_guild_config db (t0 + 601) t_put g s1 = Inr (cfg, s2) \<and>
               db_calls s2 = db_calls s1 @ [FindOne (py_str g)]))"
proof (intro conjI)
  from assms obtain c where c: "guild_cache s = Some c"
    and st: "\<forall>e. c g = Some e \<longrightarrow> last_refreshed e \<noteq> None"
    by (auto simp: cache_stamped_def)
  have "\<exists>r. get_cached_guild now g s = Inr r \<and>
          (\<forall>e. r = Some e \<longleftrightarrow>
             c g = Some e \<and> (\<exists>lr. last_refreshed e = Some lr \<and> now - of_int lr < 600))"
  proof (cases "c g")
    case None
    with c show ?thesis by (simp add: get_cached_guild_absent)
  next
    case (Some e)
    with st obtain lr where lr: "last_refreshed e = Some lr" by auto
    from get_cached_guild_entry [OF c Some lr] Some lr show ?thesis by auto
  qed
  with c show "\<exists>c r. guild_cache s = Some c \<and> get_cached_guild now g s = Inr r \<and>
          (\<forall>e. r = Some e \<longleftrightarrow>
             c g = Some e \<and> (\<exists>lr. last_refreshed e = Some lr \<and> now - of_int lr < 600))"
    by blast
next
  from assms obtain c where c: "guild_cache s = Some c"
    by (auto simp: cache_stamped_def)
  let ?s1 = "s\<lparr>guild_cache := Some (c(g \<mapsto> stamp t0 data))\<rparr>"
  have c1: "guild_cache ?s1 = Some (c(g \<mapsto> stamp t0 data))" by simp
  have e1: "(c(g \<mapsto> stamp t0 data)) g = Some (stamp t0 data)" by simp
  note near = py_round_near [of t0]
  have fresh0: "get_cached_guild t0 g ?s1 = Inr (Some (stamp t0 data))"
    using get_cached_guild_entry [OF c1 e1 last_refreshed_stamp, of t0] near by simp
  have fresh: "get_cached_guild (t0 + 599) g ?s1 = Inr (Some (stamp t0 data))"
    using get_cached_guild_entry [OF c1 e1 last_refreshed_stamp, of "t0 + 599"] near by simp
  have stale: "get_cached_guild (t0 + 601) g ?s1 = Inr None"
    using get_cached_guild_entry [OF c1 e1 last_refreshed_stamp, of "t0 + 601"] near by simp
  from cache_guild_exists [OF c] get_guild_config_hit [OF fresh0]
    get_guild_config_hit [OF fresh] stale get_guild_config_miss [OF stale c1]
  show "\<exists>s1. cache_guild t0 g data s = Inr s1 \<and>
          get_guild_config db t0 t_put g s1 = Inr (Some (stamp t0 data), s1) \<and>
          get_guild_config db (t0 + 599) t_put g s1 = Inr (Some (stamp t0 data), s1) \<and>
          get_cached_guild (t0 + 601) g s1 = Inr None \<and>
          (\<exists>cfg s2. get_guild_config db (t0 + 601) t_put g s1 = Inr (cfg, s2) \<and>
             db_calls s2 = db_calls s1 @ [FindOne (py_str g)])"
    by simp
qed

theorem cached_guild_served_iff_fresh_witness:
  "cache_stamped example_cached \<and>
   get_cached_guild 599 1 example_cached = Inr (Some (stamp 0 example_perms)) \<and>
   get_cached_guild 600 1 example_cached = Inr None"
proof -
  have h: "cache_stamped example_cached"
    by (simp add: cache_stamped_def example_cached_def stamp_def)
  have h1: "guild_cache example_cached = Some [1 \<mapsto> stamp 0 example_perms]"
    by (simp add: example_cached_def)
  have r0: "py_round 0 = 0" by (simp add: py_round_def)
  from cached_guild_served_iff_fresh [OF h, of 599 1, THEN conjunct1]
  obtain c r where c: "guild_cache example_cached = Some c"
    and r: "get_cached_guild 599 1 example_cached = Inr r"
    and iff0: "\<forall>e. r = Some e \<longleftrightarrow> c 1 = Some e \<and>
                (\<exists>lr. last_refreshed e = Some lr \<and> 599 - real_of_int lr < 600)"
    by blast
  from c h1 have "c = [1 \<mapsto> stamp 0 example_perms]" by simp
  with iff0 have
    iff: "\<forall>e. r = Some e \<longleftrightarrow> [1 \<mapsto> stamp 0 example_perms] (1::int) = Some e \<and>
                (\<exists>lr. last_refreshed e = Some lr \<and> 599 - real_of_int lr < 600)"
    by simp
  from iff have "r = Some (stamp 0 example_perms)" by (simp add: stamp_def r0)
  with r have a: "get_cached_guild 599 1 example_cached = Inr (Some (stamp 0 example_perms))"
    by simp
  from cached_guild_served_iff_fresh [OF h, of 600 1, THEN conjunct1]
  obtain c' r' where c': "guild_cache example_cached = Some c'"
    and r': "get_cached_guild 600 1 example_cached = Inr r'"
    and iff1: "\<forall>e. r' = Some e \<longleftrightarrow> c' 1 = Some e \<and>
                (\<exists>lr. last_refreshed e = Some lr \<and> 600 - real_of_int lr < 600)"
    by blast
  from c' h1 have "c' = [1 \<mapsto> stamp 0 example_perms]" by simp
  with iff1 have
    iff': "\<forall>e. r' = Some e \<longleftrightarrow> [1 \<mapsto> stamp 0 example_perms] (1::int) = Some e \<and>
                (\<exists>lr. last_refreshed e = Some lr \<and> 600 - real_of_int lr < 600)"
    by simp
  have "r' = None"
  proof (cases r')
    case None
    then show ?thesis .
  next
    case (Some e)
    with iff' have "[1 \<mapsto> stamp 0 example_perms] (1::int) = Some e \<and>
                (\<exists>lr. last_refreshed e = Some lr \<and> 600 - real_of_int lr < 600)" by blast
    then show ?thesis by (auto simp: stamp_def r0)
  qed
  with r' have b: "get_cached_guild 600 1 example_cached = Inr None" by simp
  from h a b show ?thesis by blast
qed

text \<open>
  C10. \<^verbatim>\<open>cache_guild\<close> stores the payload it is given with the one key
  \<^verbatim>\<open>last_refreshed\<close> set in it, and whatever entry the cache serves for the guild
  afterwards yields, for both fields and every subject, the level that
  \<^verbatim>\<open>extract_permission\<close> yields on the payload itself. The same holds for the payload
  that \<^verbatim>\<open>get_guild_config\<close> fetches from the collection on a miss, returns and caches.
\<close>

theorem cache_guild_preserves_levels:
  assumes "guild_cache s = Some c"
  shows "(\<exists>s1. cache_guild t0 g data s = Inr s1 \<and>
            guild_cache s1 = Some (c(g \<mapsto> data\<lparr>last_refreshed := Some (py_round t0)\<rparr>)) \<and>
            get_cached_guild t0 g s1 = Inr (Some (data\<lparr>last_refreshed := Some (py_round t0)\<rparr>)) \<and>
            (\<forall>now e. get_cached_guild now g s1 = Inr (Some e) \<longrightarrow>
               (\<forall>fld subject. extract_permission subject fld e = extract_permission subject fld data))) \<and>
         (\<forall>d p. get_cached_guild t_get g s = Inr None \<and>
              find_one db (documents s) (py_str g) = Some d \<and> doc_permissions d = Some p \<and>
              dict_truthy p \<longrightarrow>
            (\<exists>e1 s2. get_guild_config db t_get t_put g s = Inr (Some e1, s2) \<and>
               get_cached_guild t_put g s2 = Inr (Some e1) \<and>
               (\<forall>fld subject. extract_permission subject fld e1 = extract_permission subject fld p) \<and>
               (\<forall>now e. get_cached_guild now g s2 = Inr (Some e) \<longrightarrow>
                  (\<forall>fld subject. extract_permission subject fld e = extract_permission subject fld p))))"
proof (intro conjI allI impI)
  let ?s1 = "s\<lparr>guild_cache := Some (c(g \<mapsto> stamp t0 data))\<rparr>"
  have c1: "guild_cache ?s1 = Some (c(g \<mapsto> stamp t0 data))" by simp
  have e1: "(c(g \<mapsto> stamp t0 data)) g = Some (stamp t0 data)" by simp
  have fresh: "get_cached_guild t0 g ?s1 = Inr (Some (stamp t0 data))"
    using get_cached_guild_entry [OF c1 e1 last_refreshed_stamp, of t0] py_round_near [of t0]
    by simp
  have later: "\<forall>now e. get_cached_guild now g ?s1 = Inr (Some e) \<longrightarrow>
     (\<forall>fld subject. extract_permission subject fld e = extract_permission subject fld data)"
  proof (intro allI impI)
    fix now e fld subject
    assume "get_cached_guild now g ?s1 = Inr (Some e)"
    from get_cached_guild_Some [OF this] have "e = stamp t0 data" by simp
    then show "extract_permission subject fld e = extract_permission subject fld data"
      by (simp add: extract_permission_stamp)
  qed
  from cache_guild_exists [OF assms] fresh later
  show "\<exists>s1. cache_guild t0 g data s = Inr s1 \<and>
          guild_cache s1 = Some (c(g \<mapsto> data\<lparr>last_refreshed := Some (py_round t0)\<rparr>)) \<and>
          get_cached_guild t0 g s1 = Inr (Some (data\<lparr>last_refreshed := Some (py_round t0)\<rparr>)) \<and>
          (\<forall>now e. get_cached_guild now g s1 = Inr (Some e) \<longrightarrow>
             (\<forall>fld subject. extract_permission subject fld e = extract_permission subject fld data))"
    by (simp add: stamp_def)
next
  fix d p
  assume a: "get_cached_guild t_get g s = Inr None \<and>
     find_one db (documents s) (py_str g) = Some d \<and> doc_permissions d = Some p \<and> dict_truthy p"
  let ?s2 = "s\<lparr>db_calls := db_calls s @ [FindOne (py_str g)],
               guild_cache := Some (c(g \<mapsto> stamp t_put p))\<rparr>"
  have cfg: "get_guild_config db t_get t_put g s = Inr (Some (stamp t_put p), ?s2)"
    using a assms by (simp add: get_guild_config_def cache_guild_def)
  have c2: "guild_cache ?s2 = Some (c(g \<mapsto> stamp t_put p))" by simp
  have e2: "(c(g \<mapsto> stamp t_put p)) g = Some (stamp t_put p)" by simp
  have fresh: "get_cached_guild t_put g ?s2 = Inr (Some (stamp t_put p))"
    using get_cached_guild_entry [OF c2 e2 last_refreshed_stamp, of t_put]
      py_round_near [of t_put]
    by simp
  have later: "\<forall>now e. get_cached_guild now g ?s2 = Inr (Some e) \<longrightarrow>
     (\<forall>fld subject. extract_permission subject fld e = extract_permission subject fld p)"
  proof (intro allI impI)
    fix now e fld subject
    assume "get_cached_guild now g ?s2 = Inr (Some e)"
    from get_cached_guild_Some [OF this] have "e = stamp t_put p" by simp
    then show "extract_permission subject fld e = extract_permission subject fld p"
      by (simp add: extract_permission_stamp)
  qed
  from cfg fresh later
  show "\<exists>e1 s2. get_guild_config db t_get t_put g s = Inr (Some e1, s2) \<and>
          get_cached_guild t_put g s2 = Inr (Some e1) \<and>
          (\<forall>fld subject. extract_permission subject fld e1 = extract_permission subject fld p) \<and>
          (\<forall>now e. get_cached_guild now g s2 = Inr (Some e) \<longrightarrow>
             (\<forall>fld subject. extract_permission subject fld e = extract_permission subject fld p))"
    by (simp add: extract_permission_stamp)
qed

theorem cache_guild_preserves_levels_witness:
  "guild_cache example_state = Some Map.empty \<and>
   get_cached_guild 0 1 example_state = Inr None \<and>
   find_one store (documents example_state) (py_str 1) = Some \<lparr>doc_permissions = Some example_perms\<rparr> \<and>
   dict_truthy example_perms \<and>
   (\<exists>e1 s2. get_guild_config store 0 0 1 example_state = Inr (Some e1, s2) \<and>
      get_cached_guild 0 1 s2 = Inr (Some e1) \<and>
      extract_permission 7 Roles e1 = 3 \<and> extract_permission 5 Members e1 = 2)"
proof -
  have h: "guild_cache example_state = Some Map.empty" by (simp add: example_state_eval)
  have m: "get_cached_guild 0 1 example_state = Inr None"
    by (simp add: get_cached_guild_def example_state_eval)
  have f: "find_one store (documents example_state) (py_str 1) =
             Some \<lparr>doc_permissions = Some example_perms\<rparr>"
    by (simp add: store_def store_find_one_def example_state_eval example_docs_def py_str_eval)
  have t: "dict_truthy example_perms" by (simp add: dict_truthy_def example_perms_def)
  have x: "extract_permission 7 Roles example_perms = 3"
          "extract_permission 5 Members example_perms = 2"
    by (simp_all add: extract_permission_def example_perms_def py_str_eval)
  from cache_guild_preserves_levels [OF h, of 0 1 example_perms 0 store 0] m f t
  obtain e1 s2 where "get_guild_config store 0 0 1 example_state = Inr (Some e1, s2)"
    and "get_cached_guild 0 1 s2 = Inr (Some e1)"
    and "\<forall>fld subject. extract_permission subject fld e1 = extract_permission subject fld example_perms"
    by (metis doc.select_convs(1))
  with x h m f t show ?thesis by auto
qed

subsection \<open>The write path\<close>

lemma get_field_truthy: "get_field fld p = Some m \<Longrightarrow> dict_truthy p"
  by (cases fld) (simp_all add: dict_truthy_def)

lemma level_at_Some_iff:
  "level_at conf fld sid = Some v \<longleftrightarrow>
     (\<exists>d p m. conf = Some d \<and> doc_permissions d = Some p \<and> get_field fld p = Some m \<and>
        m (py_str sid) = Some v)"
  by (auto simp: level_at_def entry_level_def split: option.splits)

lemma set_db_perm_level_verified:
  assumes "guild_cache s = Some c"
    and "find_one_and_update db (documents s) (py_str g) fld (py_str sid) lvl = (Some d, docs')"
    and "doc_permissions d = Some p"
    and "entry_level p fld sid = Some lvl"
  shows "set_db_perm_level db now g fld sid lvl s =
           Inr (True, s\<lparr>documents := docs',
                        db_calls := db_calls s @
                          [FindOneAndUpdate (py_str g) fld (py_str sid) lvl],
                        guild_cache := Some (c(g \<mapsto> stamp now p))\<rparr>)"
proof -
  from assms(4) obtain m where m: "get_field fld p = Some m" "m (py_str sid) = Some lvl"
    by (auto simp: entry_level_def split: option.splits)
  then have ne: "m \<noteq> Map.empty" by auto
  from m(1) have tr: "dict_truthy p" by (rule get_field_truthy)
  show ?thesis
    using assms(1-3) m ne tr
    by (simp add: set_db_perm_level_def cache_guild_def delete_cached_guild_def)
qed

lemma set_db_perm_level_unverified:
  assumes "guild_cache s = Some c"
    and "find_one_and_update db (documents s) (py_str g) fld (py_str sid) lvl = (conf, docs')"
    and "level_at conf fld sid \<noteq> Some lvl"
  shows "set_db_perm_level db now g fld sid lvl s =
           Inr (False, s\<lparr>documents := docs',
                         db_calls := db_calls s @
                           [FindOneAndUpdate (py_str g) fld (py_str sid) lvl],
                         guild_cache := Some (c(g := None))\<rparr>)"
  using assms
  by (auto simp: set_db_perm_level_def cache_guild_def delete_cached_guild_def level_at_def
        entry_level_def Let_def split: option.splits)

lemma store_update:
  "find_one_and_update store docs (py_str g) fld (py_str sid) lvl =
     (Some \<lparr>doc_permissions = Some (written docs g fld sid lvl)\<rparr>,
      docs(py_str g \<mapsto> \<lparr>doc_permissions = Some (written docs g fld sid lvl)\<rparr>))"
  by (simp add: store_def store_find_one_and_update_def written_def Let_def)

lemma entry_level_set_entry: "entry_level (set_entry fld (py_str sid) v p) fld sid = Some v"
  by (cases fld) (simp_all add: entry_level_def)

lemma set_entry_idem: "set_entry fld k v (set_entry fld k v p) = set_entry fld k v p"
  by (cases fld) simp_all

lemma stored_perms_upd: "stored_perms (docs(key \<mapsto> \<lparr>doc_permissions = Some p\<rparr>)) key = p"
  by (simp add: stored_perms_def)

lemma written_again:
  "written (docs(py_str g \<mapsto> \<lparr>doc_permissions = Some (written docs g fld sid lvl)\<rparr>)) g fld sid lvl =
   written docs g fld sid lvl"
  by (simp add: written_def stored_perms_upd set_entry_idem)

lemma set_db_perm_level_store:
  assumes "guild_cache s = Some c"
  shows "set_db_perm_level store now g fld sid lvl s =
           Inr (True, s\<lparr>documents := (documents s)(py_str g \<mapsto>
                            \<lparr>doc_permissions = Some (written (documents s) g fld sid lvl)\<rparr>),
                        db_calls := db_calls s @
                          [FindOneAndUpdate (py_str g) fld (py_str sid) lvl],
                        guild_cache :=
                          Some (c(g \<mapsto> stamp now (written (documents s) g fld sid lvl)))\<rparr>)"
  by (rule set_db_perm_level_verified [OF assms store_update])
     (simp_all add: written_def entry_level_set_entry)

lemma set_db_perm_level_trace:
  "db_calls (state_of (set_db_perm_level db now g fld sid lvl s)) =
     db_calls s @ [FindOneAndUpdate (py_str g) fld (py_str sid) lvl]"
  by (auto simp: set_db_perm_level_def state_of_def cache_guild_def delete_cached_guild_def
        Let_def split: prod.splits option.splits)

lemma set_db_perm_level_returns:
  assumes "guild_cache s = Some c"
  shows "\<exists>ok s'. set_db_perm_level db now g fld sid lvl s = Inr (ok, s') \<and>
           db_calls s' = db_calls s @ [FindOneAndUpdate (py_str g) fld (py_str sid) lvl]"
proof -
  obtain conf docs' where
    u: "find_one_and_update db (documents s) (py_str g) fld (py_str sid) lvl = (conf, docs')"
    by (cases "find_one_and_update db (documents s) (py_str g) fld (py_str sid) lvl")
  show ?thesis
  proof (cases "level_at conf fld sid = Some lvl")
    case True
    then obtain d p where d: "conf = Some d" "doc_permissions d = Some p"
      "entry_level p fld sid = Some lvl"
      by (auto simp: level_at_def split: option.splits)
    from set_db_perm_level_verified [OF assms u [unfolded d(1)] d(2) d(3), of now]
    show ?thesis by auto
  next
    case False
    from set_db_perm_level_unverified [OF assms u False, of now] show ?thesis by auto
  qed
qed

lemma clamp_eq: "max 0 (min 4 (lvl::int)) = min 4 (max 0 lvl)"
  by auto

lemma set_db_perm_level_store_levels:
  assumes "guild_cache s = Some c"
  shows "\<exists>s' e. set_db_perm_level store now g fld sid lvl s = Inr (True, s') \<and>
           level_at (documents s' (py_str g)) fld sid = Some lvl \<and>
           guild_cache s' = Some (c(g \<mapsto> e)) \<and> entry_level e fld sid = Some lvl"
proof -
  let ?p = "written (documents s) g fld sid lvl"
  let ?s' = "s\<lparr>documents := (documents s)(py_str g \<mapsto> \<lparr>doc_permissions = Some ?p\<rparr>),
               db_calls := db_calls s @ [FindOneAndUpdate (py_str g) fld (py_str sid) lvl],
               guild_cache := Some (c(g \<mapsto> stamp now ?p))\<rparr>"
  have p: "entry_level ?p fld sid = Some lvl"
    by (simp add: written_def entry_level_set_entry)
  have e: "entry_level (stamp now ?p) fld sid = Some lvl"
    using p by (cases fld) (simp_all add: entry_level_def stamp_def)
  have r: "set_db_perm_level store now g fld sid lvl s = Inr (True, ?s')"
    by (rule set_db_perm_level_store [OF assms])
  have d: "level_at (documents ?s' (py_str g)) fld sid = Some lvl"
    using p by (simp add: level_at_def)
  have c: "guild_cache ?s' = Some (c(g \<mapsto> stamp now ?p))" by simp
  from r d c e show ?thesis by blast
qed

lemma set_permission_trace:
  "db_calls (state_of (set_permission db now t lvl s)) \<noteq> db_calls s"
  by (cases t)
     (simp_all add: set_member_permission_def set_role_permission_def set_db_perm_level_trace)

text \<open>
  The stamped cache is what the class maintains from the moment the mapping exists: it
  holds of the empty mapping and every method that returns keeps it.
\<close>

lemma cache_stamped_assigned: "cache_stamped (s\<lparr>guild_cache := Some Map.empty\<rparr>)"
  by (simp add: cache_stamped_def)

lemma cache_guild_stamped:
  assumes "cache_stamped s" and "cache_guild now g data s = Inr s'"
  shows "cache_stamped s'"
  using assms by (auto simp: cache_stamped_def cache_guild_def stamp_def)

lemma delete_cached_guild_stamped:
  assumes "cache_stamped s" and "delete_cached_guild g s = Inr (did_delete, s')"
  shows "cache_stamped s'"
  using assms by (auto simp: cache_stamped_def delete_cached_guild_def)

lemma set_db_perm_level_stamped:
  assumes "cache_stamped s" and "set_db_perm_level db now g fld sid lvl s = Inr (ok, s')"
  shows "cache_stamped s'"
proof -
  from assms(1) obtain c where c: "guild_cache s = Some c"
    and st: "\<forall>g e. c g = Some e \<longrightarrow> last_refreshed e \<noteq> None"
    by (auto simp: cache_stamped_def)
  obtain conf docs' where
    u: "find_one_and_update db (documents s) (py_str g) fld (py_str sid) lvl = (conf, docs')"
    by (cases "find_one_and_update db (documents s) (py_str g) fld (py_str sid) lvl")
  show ?thesis
  proof (cases "level_at conf fld sid = Some lvl")
    case True
    then obtain d p where d: "conf = Some d" "doc_permissions d = Some p"
      "entry_level p fld sid = Some lvl"
      by (auto simp: level_at_def split: option.splits)
    from set_db_perm_level_verified [OF c u [unfolded d(1)] d(2) d(3), of now] assms(2) st
    show ?thesis by (auto simp: cache_stamped_def stamp_def)
  next
    case False
    from set_db_perm_level_unverified [OF c u False, of now] assms(2) st
    show ?thesis by (auto simp: cache_stamped_def)
  qed
qed

text \<open>
  C3. Where the cache mapping exists, \<^verbatim>\<open>set_db_perm_level\<close> returns, whatever the driver
  answers. It returns true exactly when the answered document holds the intended level at
  \<^verbatim>\<open>permissions.<field>.<id>\<close>, and then the guild's cache entry is the answered
  payload, stamped. In every other case (no document, no payload, path missing, another
  level) it returns false and the guild has no cache entry afterwards, so no later
  look-up is served the entry from before the write.
\<close>

theorem set_db_perm_level_verifies:
  assumes "guild_cache s = Some c"
    and "find_one_and_update db (documents s) (py_str g) fld (py_str sid) lvl = (conf, docs')"
  shows "\<exists>ok s'. set_db_perm_level db now g fld sid lvl s = Inr (ok, s') \<and>
           (ok \<longleftrightarrow> level_at conf fld sid = Some lvl) \<and>
           (ok \<longrightarrow> (\<exists>d p. conf = Some d \<and> doc_permissions d = Some p \<and>
                      guild_cache s' = Some (c(g \<mapsto> p\<lparr>last_refreshed := Some (py_round now)\<rparr>)))) \<and>
           (\<not> ok \<longrightarrow> guild_cache s' = Some (c(g := None)) \<and>
                      get_cached_guild now' g s' = Inr None) \<and>
           documents s' = docs'"
proof (cases "level_at conf fld sid = Some lvl")
  case True
  then obtain d p where d: "conf = Some d" "doc_permissions d = Some p"
    "entry_level p fld sid = Some lvl"
    by (auto simp: level_at_def split: option.splits)
  from set_db_perm_level_verified [OF assms(1) assms(2) [unfolded d(1)] d(2) d(3), of now]
    True d show ?thesis
    by (auto simp: stamp_def)
next
  case False
  from set_db_perm_level_unverified [OF assms False, of now] False show ?thesis
    by (auto simp: get_cached_guild_def)
qed

theorem set_db_perm_level_verifies_witness:
  "guild_cache example_cached = Some [1 \<mapsto> stamp 0 example_perms] \<and>
   find_one_and_update silent_store (documents example_cached) (py_str 1) Members (py_str 5) 3 =
     (None, example_docs) \<and>
   (\<exists>s'. set_db_perm_level silent_store 7 1 Members 5 3 example_cached = Inr (False, s') \<and>
      guild_cache s' = Some Map.empty \<and> get_cached_guild 7 1 s' = Inr None \<and>
      documents s' = example_docs)"
proof -
  have h: "guild_cache example_cached = Some [1 \<mapsto> stamp 0 example_perms]"
    by (simp add: example_cached_def)
  have u: "find_one_and_update silent_store (documents example_cached) (py_str 1) Members
             (py_str 5) 3 = (None, example_docs)"
    by (simp add: silent_store_def example_cached_def)
  have l: "level_at None Members 5 \<noteq> Some 3" by (simp add: level_at_def)
  from set_db_perm_level_verifies [OF h u, of 7 7] l
  have "\<exists>s'. set_db_perm_level silent_store 7 1 Members 5 3 example_cached = Inr (False, s') \<and>
      guild_cache s' = Some Map.empty \<and> get_cached_guild 7 1 s' = Inr None \<and>
      documents s' = example_docs"
    by auto
  with h u show ?thesis by blast
qed

text \<open>
  C6. \<^verbatim>\<open>set_member_permission\<close> and \<^verbatim>\<open>set_role_permission\<close> hand
  \<open>min 4 (max 0 level)\<close> to \<^verbatim>\<open>find_one_and_update\<close>, whatever the driver; with the
  document store the call returns true and both the stored document and the cached entry
  hold that clamped level for the subject (4 for 99, 0 for -5).
\<close>

theorem set_permission_clamps:
  assumes "guild_cache s = Some c"
  shows "(\<exists>ok s'. set_member_permission db now m lvl s = Inr (ok, s') \<and>
            db_calls s' = db_calls s @
              [FindOneAndUpdate (py_str (member_guild_id m)) Members (py_str (member_id m))
                 (min 4 (max 0 lvl))]) \<and>
         (\<exists>ok s'. set_role_permission db now r lvl s = Inr (ok, s') \<and>
            db_calls s' = db_calls s @
              [FindOneAndUpdate (py_str (role_guild_id r)) Roles (py_str (role_id r))
                 (min 4 (max 0 lvl))]) \<and>
         (\<exists>s' e. set_member_permission store now m lvl s = Inr (True, s') \<and>
            level_at (documents s' (py_str (member_guild_id m))) Members (member_id m) =
              Some (min 4 (max 0 lvl)) \<and>
            guild_cache s' = Some (c(member_guild_id m \<mapsto> e)) \<and>
            entry_level e Members (member_id m) = Some (min 4 (max 0 lvl))) \<and>
         (\<exists>s' e. set_role_permission store now r lvl s = Inr (True, s') \<and>
            level_at (documents s' (py_str (role_guild_id r))) Roles (role_id r) =
              Some (min 4 (max 0 lvl)) \<and>
            guild_cache s' = Some (c(role_guild_id r \<mapsto> e)) \<and>
            entry_level e Roles (role_id r) = Some (min 4 (max 0 lvl)))"
proof (intro conjI)
  show "\<exists>ok s'. set_member_permission db now m lvl s = Inr (ok, s') \<and>
          db_calls s' = db_calls s @
            [FindOneAndUpdate (py_str (member_guild_id m)) Members (py_str (member_id m))
               (min 4 (max 0 lvl))]"
    using set_db_perm_level_returns [OF assms, of db now "member_guild_id m" Members
        "member_id m" "min 4 (max 0 lvl)"]
    by (simp add: set_member_permission_def clamp_eq)
  show "\<exists>ok s'. set_role_permission db now r lvl s = Inr (ok, s') \<and>
          db_calls s' = db_calls s @
            [FindOneAndUpdate (py_str (role_guild_id r)) Roles (py_str (role_id r))
               (min 4 (max 0 lvl))]"
    using set_db_perm_level_returns [OF assms, of db now "role_guild_id r" Roles
        "role_id r" "min 4 (max 0 lvl)"]
    by (simp add: set_role_permission_def clamp_eq)
  show "\<exists>s' e. set_member_permission store now m lvl s = Inr (True, s') \<and>
          level_at (documents s' (py_str (member_guild_id m))) Members (member_id m) =
            Some (min 4 (max 0 lvl)) \<and>
          guild_cache s' = Some (c(member_guild_id m \<mapsto> e)) \<and>
          entry_level e Members (member_id m) = Some (min 4 (max 0 lvl))"
    using set_db_perm_level_store_levels [OF assms, of now "member_guild_id m" Members
        "member_id m" "min 4 (max 0 lvl)"]
    by (simp add: set_member_permission_def clamp_eq)
  show "\<exists>s' e. set_role_permission store now r lvl s = Inr (True, s') \<and>
          level_at (documents s' (py_str (role_guild_id r))) Roles (role_id r) =
            Some (min 4 (max 0 lvl)) \<and>
          guild_cache s' = Some (c(role_guild_id r \<mapsto> e)) \<and>
          entry_level e Roles (role_id r) = Some (min 4 (max 0 lvl))"
    using set_db_perm_level_store_levels [OF assms, of now "role_guild_id r" Roles
        "role_id r" "min 4 (max 0 lvl)"]
    by (simp add: set_role_permission_def clamp_eq)
qed

theorem set_permission_clamps_witness:
  "guild_cache example_state = Some Map.empty \<and>
   (\<exists>s' e. set_member_permission store 0 example_member 99 example_state = Inr (True, s') \<and>
      level_at (documents s' ''1'') Members 5 = Some 4 \<and>
      guild_cache s' = Some [1 \<mapsto> e] \<and> entry_level e Members 5 = Some 4) \<and>
   (\<exists>s' e. set_member_permission store 0 example_member (- 5) example_state = Inr (True, s') \<and>
      level_at (documents s' ''1'') Members 5 = Some 0 \<and>
      guild_cache s' = Some [1 \<mapsto> e] \<and> entry_level e Members 5 = Some 0)"
proof -
  have h: "guild_cache example_state = Some Map.empty" by (simp add: example_state_eval)
  have k: "py_str 1 = ''1''" by (simp add: py_str_eval)
  from set_permission_clamps [OF h, of store 0 example_member 99 example_role]
  have a: "\<exists>s' e. set_member_permission store 0 example_member 99 example_state = Inr (True, s') \<and>
      level_at (documents s' ''1'') Members 5 = Some 4 \<and>
      guild_cache s' = Some [1 \<mapsto> e] \<and> entry_level e Members 5 = Some 4"
    by (simp add: example_member_def k)
  from set_permission_clamps [OF h, of store 0 example_member "- 5" example_role]
  have b: "\<exists>s' e. set_member_permission store 0 example_member (- 5) example_state = Inr (True, s') \<and>
      level_at (documents s' ''1'') Members 5 = Some 0 \<and>
      guild_cache s' = Some [1 \<mapsto> e] \<and> entry_level e Members 5 = Some 0"
    by (simp add: example_member_def k)
  from h a b show ?thesis by blast
qed

text \<open>
  C7. Two calls of \<^verbatim>\<open>set_db_perm_level\<close> in succession with the same arguments on the
  document store both return true and leave the documents as one call leaves them. The
  guild's cache entry holds the same payload as after one call, with the stamp of the
  second call in place of the stamp of the first: the cache is the one a single call at
  the second clock leaves, and it equals the cache after the first call when both clocks
  round to the same second.
\<close>

theorem set_db_perm_level_twice:
  assumes "guild_cache s = Some c"
  shows "\<exists>s1 s2 s2' e.
           set_db_perm_level store t1 g fld sid lvl s = Inr (True, s1) \<and>
           set_twice store t1 t2 g fld sid lvl s = Inr ((True, True), s2) \<and>
           set_db_perm_level store t2 g fld sid lvl s = Inr (True, s2') \<and>
           documents s2 = documents s1 \<and> documents s2' = documents s1 \<and>
           guild_cache s1 = Some (c(g \<mapsto> e\<lparr>last_refreshed := Some (py_round t1)\<rparr>)) \<and>
           guild_cache s2 = Some (c(g \<mapsto> e\<lparr>last_refreshed := Some (py_round t2)\<rparr>)) \<and>
           guild_cache s2' = guild_cache s2 \<and>
           (py_round t2 = py_round t1 \<longrightarrow> guild_cache s2 = guild_cache s1)"
proof -
  let ?p = "written (documents s) g fld sid lvl"
  let ?docs = "(documents s)(py_str g \<mapsto> \<lparr>doc_permissions = Some ?p\<rparr>)"
  let ?call = "FindOneAndUpdate (py_str g) fld (py_str sid) lvl"
  let ?s1 = "s\<lparr>documents := ?docs, db_calls := db_calls s @ [?call],
               guild_cache := Some (c(g \<mapsto> stamp t1 ?p))\<rparr>"
  let ?s2 = "s\<lparr>documents := ?docs, db_calls := db_calls s @ [?call, ?call],
               guild_cache := Some (c(g \<mapsto> stamp t2 ?p))\<rparr>"
  let ?s2' = "s\<lparr>documents := ?docs, db_calls := db_calls s @ [?call],
               guild_cache := Some (c(g \<mapsto> stamp t2 ?p))\<rparr>"
  have one: "set_db_perm_level store t1 g fld sid lvl s = Inr (True, ?s1)"
    by (rule set_db_perm_level_store [OF assms])
  have one': "set_db_perm_level store t2 g fld sid lvl s = Inr (True, ?s2')"
    by (rule set_db_perm_level_store [OF assms])
  have c1: "guild_cache ?s1 = Some (c(g \<mapsto> stamp t1 ?p))" by simp
  have two: "set_db_perm_level store t2 g fld sid lvl ?s1 = Inr (True, ?s2)"
    using set_db_perm_level_store [OF c1, of t2 g fld sid lvl]
    by (simp add: written_again)
  have twice: "set_twice store t1 t2 g fld sid lvl s = Inr ((True, True), ?s2)"
    by (simp add: set_twice_def one two)
  show ?thesis
    apply (rule exI [of _ ?s1], rule exI [of _ ?s2], rule exI [of _ ?s2'], rule exI [of _ ?p])
    using one twice one' by (simp add: stamp_def)
qed

theorem set_db_perm_level_twice_witness:
  "guild_cache example_state = Some Map.empty \<and>
   (\<exists>s1 s2. set_db_perm_level store 0 1 Members 5 2 example_state = Inr (True, s1) \<and>
      set_twice store 0 (1 / 5) 1 Members 5 2 example_state = Inr ((True, True), s2) \<and>
      documents s2 = documents s1 \<and> guild_cache s2 = guild_cache s1)"
proof -
  have h: "guild_cache example_state = Some Map.empty" by (simp add: example_state_eval)
  have r: "py_round (1 / 5) = py_round 0" by (simp add: py_round_def)
  from set_db_perm_level_twice [OF h, of 0 1 Members 5 2 "1 / 5"] r
  have "\<exists>s1 s2. set_db_perm_level store 0 1 Members 5 2 example_state = Inr (True, s1) \<and>
      set_twice store 0 (1 / 5) 1 Members 5 2 example_state = Inr ((True, True), s2) \<and>
      documents s2 = documents s1 \<and> guild_cache s2 = guild_cache s1"
    by auto
  with h show ?thesis by blast
qed

text \<open>
  Against the claim as worded: a call at clock 0 and a second one at clock 1 leave a cache
  that differs from the cache after the call at clock 0 alone (the entry's
  \<^verbatim>\<open>last_refreshed\<close> is 1 instead of 0).
\<close>

theorem set_twice_cache_counterexample:
  "guild_cache (state_of (set_twice store 0 1 1 Members 5 2 example_state)) \<noteq>
   guild_cache (state_of (set_db_perm_level store 0 1 Members 5 2 example_state))"
proof -
  have h: "guild_cache example_state = Some Map.empty" by (simp add: example_state_eval)
  let ?p = "written (documents example_state) 1 Members 5 2"
  have a: "guild_cache (state_of (set_db_perm_level store 0 1 Members 5 2 example_state)) =
           Some [1 \<mapsto> stamp 0 ?p]"
    by (simp add: set_db_perm_level_store [OF h] state_of_def)
  have "\<exists>s1. set_db_perm_level store 0 1 Members 5 2 example_state = Inr (True, s1) \<and>
     guild_cache s1 = Some [1 \<mapsto> stamp 0 ?p] \<and> documents s1 = (documents example_state)(py_str 1 \<mapsto> \<lparr>doc_permissions = Some ?p\<rparr>)"
    by (simp add: set_db_perm_level_store [OF h])
  then obtain s1 where s1: "set_db_perm_level store 0 1 Members 5 2 example_state = Inr (True, s1)"
    and c1: "guild_cache s1 = Some [1 \<mapsto> stamp 0 ?p]"
    and d1: "documents s1 = (documents example_state)(py_str 1 \<mapsto> \<lparr>doc_permissions = Some ?p\<rparr>)"
    by blast
  have b: "guild_cache (state_of (set_twice store 0 1 1 Members 5 2 example_state)) =
           Some ([1 \<mapsto> stamp 0 ?p](1 \<mapsto> stamp 1 ?p))"
    by (simp add: set_twice_def s1 set_db_perm_level_store [OF c1] state_of_def d1 written_again)
  have "stamp 1 ?p \<noteq> stamp 0 ?p"
  proof
    assume "stamp 1 ?p = stamp 0 ?p"
    then have "last_refreshed (stamp 1 ?p) = last_refreshed (stamp 0 ?p)" by simp
    then show False by (simp add: stamp_def py_round_def)
  qed
  then have "[1 \<mapsto> stamp 0 ?p](1 \<mapsto> stamp 1 ?p) \<noteq> [(1::int) \<mapsto> stamp 0 ?p]"
    by (metis fun_upd_same option.inject)
  with a b show ?thesis by simp
qed

text \<open>
  C8. \<^verbatim>\<open>handle_permission_update_request\<close> returns \<^verbatim>\<open>None\<close> and leaves the state
  (documents, cache and trace of calls) as it is when the guild is not found, and when the
  role or member is not found in the guild. When the target is found the outcome is that
  of \<^verbatim>\<open>set_permission\<close> on it, whose boolean is what is returned, and the collection has
  been called.
\<close>

theorem handle_permission_update_request_lookup:
  "(bot_get_guild guild_id = None \<longrightarrow>
      handle_permission_update_request db now bot_get_guild guild_id obj_id level is_role s =
        Inr (None, s)) \<and>
   (\<forall>g. bot_get_guild guild_id = Some g \<and>
        (if is_role then get_role g obj_id = None else get_member g obj_id = None) \<longrightarrow>
      handle_permission_update_request db now bot_get_guild guild_id obj_id level is_role s =
        Inr (None, s)) \<and>
   (\<forall>g t. bot_get_guild guild_id = Some g \<and>
        (if is_role then \<exists>r. get_role g obj_id = Some r \<and> t = Role r
         else \<exists>m. get_member g obj_id = Some m \<and> t = Member m) \<longrightarrow>
      handle_permission_update_request db now bot_get_guild guild_id obj_id level is_role s =
        (case set_permission db now t level s of
           Inl e \<Rightarrow> Inl e
         | Inr (ok, s1) \<Rightarrow> Inr (Some ok, s1)) \<and>
      state_of (handle_permission_update_request db now bot_get_guild guild_id obj_id level
                  is_role s) = state_of (set_permission db now t level s) \<and>
      db_calls (state_of (handle_permission_update_request db now bot_get_guild guild_id obj_id
                  level is_role s)) \<noteq> db_calls s)"
proof (intro conjI allI impI)
  assume "bot_get_guild guild_id = None"
  then show "handle_permission_update_request db now bot_get_guild guild_id obj_id level is_role s =
        Inr (None, s)"
    by (simp add: handle_permission_update_request_def)
next
  fix g
  assume "bot_get_guild guild_id = Some g \<and>
        (if is_role then get_role g obj_id = None else get_member g obj_id = None)"
  then show "handle_permission_update_request db now bot_get_guild guild_id obj_id level is_role s =
        Inr (None, s)"
    by (cases is_role) (simp_all add: handle_permission_update_request_def)
next
  fix g t
  assume a: "bot_get_guild guild_id = Some g \<and>
        (if is_role then \<exists>r. get_role g obj_id = Some r \<and> t = Role r
         else \<exists>m. get_member g obj_id = Some m \<and> t = Member m)"
  then show eq: "handle_permission_update_request db now bot_get_guild guild_id obj_id level is_role s =
        (case set_permission db now t level s of
           Inl e \<Rightarrow> Inl e
         | Inr (ok, s1) \<Rightarrow> Inr (Some ok, s1))"
    by (cases is_role) (auto simp: handle_permission_update_request_def)
  show st: "state_of (handle_permission_update_request db now bot_get_guild guild_id obj_id level
                  is_role s) = state_of (set_permission db now t level s)"
    unfolding eq by (simp add: state_of_def split: sum.splits prod.splits)
  show "db_calls (state_of (handle_permission_update_request db now bot_get_guild guild_id obj_id
                  level is_role s)) \<noteq> db_calls s"
    unfolding st by (rule set_permission_trace)
qed

theorem handle_permission_update_request_lookup_witness:
  "example_bot 2 = None \<and>
   handle_permission_update_request store 0 example_bot 2 5 3 False example_state =
     Inr (None, example_state) \<and>
   example_bot 1 = Some example_guild \<and> get_member example_guild 6 = None \<and>
   handle_permission_update_request store 0 example_bot 1 6 3 False example_state =
     Inr (None, example_state) \<and>
   get_role example_guild 7 = Some example_role \<and>
   handle_permission_update_request store 0 example_bot 1 7 3 True example_state =
     (case set_permission store 0 (Role example_role) 3 example_state of
        Inl e \<Rightarrow> Inl e
      | Inr (ok, s1) \<Rightarrow> Inr (Some ok, s1)) \<and>
   db_calls (state_of (handle_permission_update_request store 0 example_bot 1 7 3 True
     example_state)) \<noteq> db_calls example_state"
proof -
  have g2: "example_bot 2 = None" by (simp add: example_bot_def)
  have g1: "example_bot 1 = Some example_guild" by (simp add: example_bot_def)
  have t6: "get_member example_guild 6 = None" by (simp add: example_guild_def)
  have t7: "get_role example_guild 7 = Some example_role" by (simp add: example_guild_def)
  note a = handle_permission_update_request_lookup
    [of example_bot 2 store 0 5 3 False example_state]
  note b = handle_permission_update_request_lookup
    [of example_bot 1 store 0 6 3 False example_state]
  note c = handle_permission_update_request_lookup
    [of example_bot 1 store 0 7 3 True example_state]
  from a g2 have 1: "handle_permission_update_request store 0 example_bot 2 5 3 False
    example_state = Inr (None, example_state)" by blast
  from b g1 t6 have 2: "handle_permission_update_request store 0 example_bot 1 6 3 False
    example_state = Inr (None, example_state)" by simp
  have pre: "example_bot 1 = Some example_guild \<and>
        (if True then \<exists>r. get_role example_guild 7 = Some r \<and> Role example_role = Role r
         else \<exists>m. get_member example_guild 7 = Some m \<and> Role example_role = Member m)"
    using g1 t7 by simp
  from c pre have 3: "handle_permission_update_request store 0 example_bot 1 7 3 True example_state =
     (case set_permission store 0 (Role example_role) 3 example_state of
        Inl e \<Rightarrow> Inl e
      | Inr (ok, s1) \<Rightarrow> Inr (Some ok, s1)) \<and>
   db_calls (state_of (handle_permission_update_request store 0 example_bot 1 7 3 True
     example_state)) \<noteq> db_calls example_state" by blast
  from g2 g1 t6 t7 1 2 3 show ?thesis by blast
qed

end
